theory Spec2Isabelle
  imports Complex_Main "HOL-Library.Sublist" "HOL-Library.Multiset" "HOL-Library.AList"
begin

section \<open>Python values and errors\<close>

text \<open>
  Every \<^verbatim>\<open>raise\<close> of the two modules, and every exception of a library call
  that the modelled paths can reach, is a constructor of one error type. The
  constructor names say which exception and which site.
\<close>

datatype py_error =
    UnknownBaseModel          \<comment> \<open>ValueError: Requested base model not supported\<close>
  | ComplexitySpecTooLong     \<comment> \<open>ValueError: Model complexity spec too long\<close>
  | EmptySeparator            \<comment> \<open>ValueError of str.split with an empty separator\<close>
  | CountMismatch             \<comment> \<open>OSError: Number of images and labels mismatched\<close>
  | NoImagesTypeError         \<comment> \<open>the str + list concatenation inside get_image_list\<close>
  | AttributeError
  | MissingRequiredPathKey    \<comment> \<open>OSError: Required key missing\<close>
  | BatchSizeExceedsLimit     \<comment> \<open>ValueError of calc_nearest_power_of_two\<close>
  | MathDomainError           \<comment> \<open>ValueError of math.log2 on a non-positive number\<close>
  | ZeroDivisionError
  | UnboundLocalError
  | SplitSizeError            \<comment> \<open>ValueError of train_test_split on a bad test_size\<close>
  | InconsistentLength        \<comment> \<open>ValueError of sklearn.utils.shuffle\<close>
  | SameFileError
  | FileNotFoundError
  | IndexError

section \<open>Python strings\<close>

text \<open>
  Strings are lists of characters. \<^verbatim>\<open>str.lower\<close> is modelled on the ASCII
  letters, which is all that the catalog keys and the architecture names use.
  \<^verbatim>\<open>str.startswith\<close> is the prefix test. \<^verbatim>\<open>str.split(sep)\<close> and
  \<^verbatim>\<open>str.replace(old, new)\<close> scan from the left and consume each occurrence they
  find, so occurrences never overlap.
\<close>

definition lower_char :: "char \<Rightarrow> char" where
  "lower_char c =
     (let n = (of_char c :: nat) in if 65 \<le> n \<and> n \<le> 90 then char_of (n + 32) else c)"

definition lower :: "string \<Rightarrow> string" where
  "lower s = map lower_char s"

definition startswith :: "string \<Rightarrow> string \<Rightarrow> bool" where
  "startswith s p = prefix p s"

function split_scan :: "string \<Rightarrow> string \<Rightarrow> string \<Rightarrow> string list" where
  "split_scan sep cur [] = [cur]"
| "split_scan sep cur (c # cs) =
     (if sep \<noteq> [] \<and> prefix sep (c # cs)
      then cur # split_scan sep [] (drop (length sep) (c # cs))
      else split_scan sep (cur @ [c]) cs)"
  by pat_completeness auto
termination
  by (relation "measure (\<lambda>(sep, cur, s). length s)") (auto simp: neq_Nil_conv)

definition py_split :: "string \<Rightarrow> string \<Rightarrow> py_error + string list" where
  "py_split s sep = (if sep = [] then Inl EmptySeparator else Inr (split_scan sep [] s))"

function replace_scan :: "string \<Rightarrow> string \<Rightarrow> string \<Rightarrow> string" where
  "replace_scan old new [] = []"
| "replace_scan old new (c # cs) =
     (if old \<noteq> [] \<and> prefix old (c # cs)
      then new @ replace_scan old new (drop (length old) (c # cs))
      else c # replace_scan old new cs)"
  by pat_completeness auto
termination
  by (relation "measure (\<lambda>(old, new, s). length s)") (auto simp: neq_Nil_conv)

definition py_replace :: "string \<Rightarrow> string \<Rightarrow> string \<Rightarrow> string" where
  "py_replace s old new =
     (if old = [] then new @ concat (map (\<lambda>c. c # new) s) else replace_scan old new s)"

section \<open>model_initializer.py\<close>

subsection \<open>The catalog and the name resolver\<close>

text \<open>
  The catalogs are dictionaries; their insertion order is what a comprehension
  over them iterates in, so they are association lists. \<^verbatim>\<open>max(xs, key=len)\<close>
  keeps the first element of maximal length: the running best changes only on a
  strictly longer element. The resolver assigns its attributes one after the
  other, and an attribute assigned before a \<^verbatim>\<open>raise\<close> stays assigned.
\<close>

definition valid_models_builtin :: "(string \<times> string) list" where
  "valid_models_builtin =
     [(''efficientnet'', ''class''), (''efficientnet_v2'', ''class''), (''densenet'', ''class''),
      (''vgg'', ''class''), (''inception'', ''class''), (''inception_resnet'', ''class''),
      (''resnet'', ''class''), (''resnet_v2'', ''class''), (''resnet_rs'', ''class''),
      (''regnet'', ''class''), (''mobilenet'', ''class''), (''mobilenet_v2'', ''class''),
      (''mobilenet_v3'', ''class''), (''xception'', ''class'')]"

definition valid_models_custom :: "(string \<times> string) list" where
  "valid_models_custom = [(''unet'', ''segm'')]"

definition dict_update :: "('k \<times> 'v) list \<Rightarrow> ('k \<times> 'v) list \<Rightarrow> ('k \<times> 'v) list" where
  "dict_update d e = foldl (\<lambda>acc (k, v). AList.update k v acc) d e"

definition valid_model_names_all :: "(string \<times> string) list" where
  "valid_model_names_all = dict_update valid_models_builtin valid_models_custom"

fun max_key_len :: "string \<Rightarrow> string list \<Rightarrow> string" where
  "max_key_len best [] = best"
| "max_key_len best (x # xs) = max_key_len (if length best < length x then x else best) xs"

record resolver =
  model_name :: string
  model_name_base :: "string option"
  model_complexity :: "string option"

definition get_complexity_from_model_name :: "resolver \<Rightarrow> py_error option \<times> resolver" where
  "get_complexity_from_model_name self =
     (case filter (\<lambda>name. startswith (model_name self) name) (map fst valid_model_names_all) of
        [] \<Rightarrow> (Some UnknownBaseModel, self)
      | k # ks \<Rightarrow>
          (let base = max_key_len k ks;
               self1 = self\<lparr>model_name_base := Some base\<rparr>
           in case py_split (model_name self1) base of
                Inl e \<Rightarrow> (Some e, self1)
              | Inr parts \<Rightarrow>
                  (let self2 = self1\<lparr>model_complexity := Some (last parts)\<rparr>;
                       self3 = self2\<lparr>model_complexity :=
                                 Some (py_replace (the (model_complexity self2)) ''small'' ''Small'')\<rparr>;
                       self4 = self3\<lparr>model_complexity :=
                                 Some (py_replace (the (model_complexity self3)) ''large'' ''Large'')\<rparr>
                   in if 12 < length (the (model_complexity self4))
                      then (Some ComplexitySpecTooLong, self4)
                      else (None, self4))))"

definition init_resolver :: "string \<Rightarrow> resolver" where
  "init_resolver name = \<lparr>model_name = lower name, model_name_base = None, model_complexity = None\<rparr>"

definition resolve :: "string \<Rightarrow> py_error option \<times> resolver" where
  "resolve name = get_complexity_from_model_name (init_resolver name)"

text \<open>
  For comparison only, the complexity token as the specification words it: the
  matched key is stripped from the front of the lowercased name and the two
  substrings are capitalised in what remains. It is not taken from the source.
\<close>

definition spec_complexity_token :: "string \<Rightarrow> string \<Rightarrow> string" where
  "spec_complexity_token name base =
     py_replace (py_replace (drop (length base) (lower name)) ''small'' ''Small'')
       ''large'' ''Large''"


subsection \<open>Debug mode\<close>

text \<open>
  The part of the orchestrator that \<^verbatim>\<open>set_run_debug\<close> touches: the two batch
  sequences held by the dataset object and the epoch budget. What the dataset
  object holds depends on its class. \<^verbatim>\<open>ImgMaskDataset.tf_dataset\<close> builds a
  batched \<^verbatim>\<open>tf.data\<close> dataset, whose \<^verbatim>\<open>take(16)\<close> keeps the first 16 batches,
  or all of them when there are fewer.
  \<^verbatim>\<open>ImgLabelDataset.make_random_data_generator\<close> returns the iterator of
  \<^verbatim>\<open>flow_from_dataframe\<close>, which has no \<^verbatim>\<open>take\<close> attribute, so the call raises
  \<^verbatim>\<open>AttributeError\<close>. Both carry their batches as a list.
\<close>

datatype 'b batch_source = TfDataset "'b list" | DataFrameIterator "'b list"

definition py_take :: "nat \<Rightarrow> 'b batch_source \<Rightarrow> py_error + 'b batch_source" where
  "py_take n source =
     (case source of
        TfDataset batches \<Rightarrow> Inr (TfDataset (take n batches))
      | DataFrameIterator batches \<Rightarrow> Inl AttributeError)"

record 'b debug_state =
  train_dataset :: "'b batch_source"
  valid_dataset :: "'b batch_source"
  num_epochs :: nat

definition set_default_optimization_params :: "'b debug_state \<Rightarrow> 'b debug_state" where
  "set_default_optimization_params self = self\<lparr>num_epochs := 40\<rparr>"

definition set_run_debug :: "'b debug_state \<Rightarrow> py_error + 'b debug_state" where
  "set_run_debug self =
     (case py_take 16 (train_dataset self) of
        Inl e \<Rightarrow> Inl e
      | Inr train \<Rightarrow>
          (let self1 = self\<lparr>train_dataset := train\<rparr> in
           case py_take 16 (train_dataset self1) of
             Inl e \<Rightarrow> Inl e
           | Inr valid \<Rightarrow>
               (let self2 = self1\<lparr>valid_dataset := valid\<rparr>
                in Inr (self2\<lparr>num_epochs := 1\<rparr>))))"

text \<open>The first lines of the constructor, up to the debug switch.\<close>

definition init_debug :: "bool \<Rightarrow> 'b debug_state \<Rightarrow> py_error + 'b debug_state" where
  "init_debug run_debug self =
     (let self1 = set_default_optimization_params self
      in if run_debug then set_run_debug self1 else Inr self1)"

subsection \<open>Checkpoint and history files\<close>

text \<open>
  The file system is a map from paths to contents. What \<^verbatim>\<open>make_callbacks\<close>
  does to it, whether it ends fresh, and which file, if any, it hands to
  \<^verbatim>\<open>load_weights\<close> are the three components of the result.
\<close>

type_synonym fs = "string \<rightharpoonup> string"

definition exists_path :: "fs \<Rightarrow> string \<Rightarrow> bool" where
  "exists_path files p = (files p \<noteq> None)"

text \<open>
  Modelled from the spec: \<^verbatim>\<open>delete\<close> of \<^verbatim>\<open>shared_utils.os_utils\<close> is not among
  the sources. The specification has stale files deleted and missing files
  raise no error, so it removes the path and never fails.
\<close>

definition delete :: "string \<Rightarrow> fs \<Rightarrow> fs" where
  "delete p files = files(p := None)"

record callbacks_result =
  train_fresh :: bool
  files_after :: fs
  loaded_weights :: "string option"

definition trained_model_path :: "string \<Rightarrow> string \<Rightarrow> string" where
  "trained_model_path dir name =
     dir @ ''/'' @ ''trained_model_'' @ name @ ''.h5''"

definition history_path :: "string \<Rightarrow> string \<Rightarrow> string" where
  "history_path dir name =
     dir @ ''/'' @ ''training_history_'' @ name @ ''.csv''"

definition make_callbacks :: "string \<Rightarrow> string \<Rightarrow> bool \<Rightarrow> fs \<Rightarrow> callbacks_result" where
  "make_callbacks dir name fresh0 files =
     (let trained_model_file = trained_model_path dir name;
          csv_path = history_path dir name;
          fresh1 = (if \<not> fresh0 then
                      (let f1 = (if \<not> exists_path files trained_model_file then True else fresh0)
                       in if \<not> exists_path files csv_path then True else f1)
                    else fresh0)
      in if fresh1
         then \<lparr>train_fresh = fresh1,
               files_after = delete csv_path (delete trained_model_file files),
               loaded_weights = None\<rparr>
         else \<lparr>train_fresh = fresh1,
               files_after = files,
               loaded_weights = Some trained_model_file\<rparr>)"

subsection \<open>Local-minima escape\<close>

text \<open>
  \<^verbatim>\<open>shutil.copy\<close> fails when the source is missing and when source and
  destination are the same file. \<^verbatim>\<open>run_model\<close> trains and is outside the
  sources: it is a parameter that, for the attempt number and the file system,
  gives the file system after the run and the rounded final-epoch coefficient
  that \<^verbatim>\<open>get_final_epoch_coeff\<close> then reads. The dictionary of backups keeps
  its insertion order, which is the order the selection loop visits it in.
\<close>

definition shutil_copy :: "string \<Rightarrow> string \<Rightarrow> fs \<Rightarrow> py_error + fs" where
  "shutil_copy src dst files =
     (case files src of
        None \<Rightarrow> Inl FileNotFoundError
      | Some content \<Rightarrow> if src = dst then Inl SameFileError else Inr (files(dst \<mapsto> content)))"

function str_nat :: "nat \<Rightarrow> string" where
  "str_nat n = (if n < 10 then [char_of (48 + n)] else str_nat (n div 10) @ [char_of (48 + n mod 10)])"
  by pat_completeness auto
termination
  by (relation "measure id") auto

declare str_nat.simps [simp del]

definition make_backup_file :: "string \<Rightarrow> nat \<Rightarrow> fs \<Rightarrow> py_error + (string \<times> fs)" where
  "make_backup_file filename i files =
     (case py_split filename ''.'' of
        Inl e \<Rightarrow> Inl e
      | Inr pieces \<Rightarrow>
          (let extension = ''.'' @ last pieces in
           case py_split filename extension of
             Inl e \<Rightarrow> Inl e
           | Inr parts \<Rightarrow>
               if length parts < 2 then Inl IndexError
               else (let backup_file_name =
                           parts ! (length parts - 2) @ ''_backup'' @ str_nat i @ extension
                     in case shutil_copy filename backup_file_name files of
                          Inl e \<Rightarrow> Inl e
                        | Inr files' \<Rightarrow> Inr (backup_file_name, files'))))"

type_synonym backup_record = "string \<times> string \<times> rat"

type_synonym backup_models = "(string \<times> backup_record) list"

fun collect_backups ::
  "(nat \<Rightarrow> fs \<Rightarrow> fs \<times> rat) \<Rightarrow> string \<Rightarrow> string \<Rightarrow> nat list \<Rightarrow> fs \<Rightarrow> backup_models
     \<Rightarrow> py_error + (fs \<times> backup_models)" where
  "collect_backups run_model trained_model_file history_file [] files backups = Inr (files, backups)"
| "collect_backups run_model trained_model_file history_file (i # rest) files backups =
     (case make_backup_file trained_model_file i files of
        Inl e \<Rightarrow> Inl e
      | Inr (backup_file_model, files1) \<Rightarrow>
          (case make_backup_file history_file i files1 of
             Inl e \<Rightarrow> Inl e
           | Inr (backup_file_csv, files2) \<Rightarrow>
               (case run_model i files2 of
                  (files3, coeff) \<Rightarrow>
                    collect_backups run_model trained_model_file history_file rest files3
                      (AList.update (''jump_iter'' @ str_nat i)
                         (backup_file_model, backup_file_csv, coeff) backups))))"

fun pick_loop :: "backup_models \<Rightarrow> rat \<times> string \<Rightarrow> rat \<times> string" where
  "pick_loop [] st = st"
| "pick_loop ((model, (model_file, csv_file, accuracy)) # rest) (best_acc, best_model) =
     (if best_acc > 0 then pick_loop rest (accuracy, best_model)
      else if accuracy > best_acc then pick_loop rest (best_acc, model)
      else pick_loop rest (best_acc, best_model))"

definition pick_best_model :: "backup_models \<Rightarrow> string \<Rightarrow> string \<Rightarrow> fs \<Rightarrow> py_error + fs" where
  "pick_best_model backups trained_model_file history_file files =
     (case pick_loop backups (0, '''') of
        (best_acc, best_model) \<Rightarrow>
          if best_model \<noteq> '''' then
            (case map_of backups best_model of
               None \<Rightarrow> Inl AttributeError
             | Some (model_file, csv_file, accuracy) \<Rightarrow>
                 (case shutil_copy model_file trained_model_file files of
                    Inl e \<Rightarrow> Inl e
                  | Inr files1 \<Rightarrow> shutil_copy csv_file history_file files1))
          else Inr files)"

definition try_bypass_local_minimum ::
  "(nat \<Rightarrow> fs \<Rightarrow> fs \<times> rat) \<Rightarrow> string \<Rightarrow> string \<Rightarrow> rat \<Rightarrow> nat \<Rightarrow> fs \<Rightarrow> py_error + fs" where
  "try_bypass_local_minimum run_model trained_model_file history_file coeff0 n_times files =
     (case collect_backups run_model trained_model_file history_file [1 ..< n_times + 1] files
             [(''jump_iter0'', (trained_model_file, history_file, coeff0))] of
        Inl e \<Rightarrow> Inl e
      | Inr (files1, backups) \<Rightarrow> pick_best_model backups trained_model_file history_file files1)"

text \<open>
  A concrete escape run used below: the checkpoint and history start with
  contents \<^verbatim>\<open>w0\<close> and \<^verbatim>\<open>h0\<close>, attempt \<open>i\<close> overwrites them with
  \<^verbatim>\<open>wi\<close> and \<^verbatim>\<open>hi\<close>, attempt 1 ends with coefficient 0.9 and every other
  attempt with 0.7.
\<close>

definition example_run :: "nat \<Rightarrow> fs \<Rightarrow> fs \<times> rat" where
  "example_run i files =
     (files(''out/m.h5'' \<mapsto> ''w'' @ str_nat i, ''out/h.csv'' \<mapsto> ''h'' @ str_nat i),
      if i = 1 then 9 / 10 else 7 / 10)"

definition example_files :: fs where
  "example_files = [''out/m.h5'' \<mapsto> ''w0'', ''out/h.csv'' \<mapsto> ''h0'']"

section \<open>prep_training_data.py\<close>

subsection \<open>Python numbers\<close>

text \<open>
  Python integers are unbounded, so they are \<open>int\<close>. A true division
  \<^verbatim>\<open>a / b\<close> gives a float; it is modelled by the exact rational quotient,
  which the float equals whenever the quotient is representable, as it is at
  every concrete input used below. \<^verbatim>\<open>round\<close> on a float rounds to the nearest
  integer and a tie to the even neighbour; \<^verbatim>\<open>int\<close> truncates towards zero.
  \<^verbatim>\<open>math.floor(math.log2(n))\<close> and \<^verbatim>\<open>math.ceil(math.log2(n))\<close> are the exact
  integer logarithms of a positive integer.
\<close>

definition py_round :: "rat \<Rightarrow> int" where
  "py_round x =
     (let f = \<lfloor>x\<rfloor>; d = x - of_int f
      in if d < 1 / 2 then f else if 1 / 2 < d then f + 1 else if even f then f else f + 1)"

definition py_int :: "rat \<Rightarrow> int" where
  "py_int x = (if 0 \<le> x then \<lfloor>x\<rfloor> else \<lceil>x\<rceil>)"

fun floor_log2 :: "nat \<Rightarrow> nat" where
  "floor_log2 n = (if n < 2 then 0 else Suc (floor_log2 (n div 2)))"

declare floor_log2.simps [simp del]

definition ceil_log2 :: "nat \<Rightarrow> nat" where
  "ceil_log2 n = (if n \<le> 1 then 0 else Suc (floor_log2 (n - 1)))"

subsection \<open>Discovery of images and targets\<close>

text \<open>
  \<^verbatim>\<open>hasattr\<close> asks whether an attribute has been assigned, so the object is a
  map from attribute names to values. \<^verbatim>\<open>list_dir\<close> walks the file system and
  \<^verbatim>\<open>pd.read_csv\<close> reads the label table; both are parameters.
  \<^verbatim>\<open>set_image_dims_original\<close> decodes the first image through the image codec
  and assigns attributes that nothing below reads; it is left out.
\<close>

datatype attr_val = AInt int | AStr string | AStrs "string list" | ARows "(string \<times> string) list"

type_synonym py_object = "string \<rightharpoonup> attr_val"

definition hasattr :: "py_object \<Rightarrow> string \<Rightarrow> bool" where
  "hasattr self name = (self name \<noteq> None)"

definition get_image_list :: "(string \<Rightarrow> string list) \<Rightarrow> string \<Rightarrow> py_error + string list" where
  "get_image_list list_dir path =
     (let images = list_dir path in if images = [] then Inl NoImagesTypeError else Inr images)"

definition make_image_dirs ::
  "(string \<Rightarrow> string list) \<Rightarrow> py_object \<Rightarrow> string
     \<Rightarrow> py_error + (py_object \<times> string list \<times> string)" where
  "make_image_dirs list_dir self path_images =
     (case get_image_list list_dir path_images of
        Inl e \<Rightarrow> Inl e
      | Inr images \<Rightarrow>
          (let num_examples = int (length images) in
           if hasattr self ''num_images''
           then (case self ''num_examples'' of
                   None \<Rightarrow> Inl AttributeError
                 | Some v \<Rightarrow>
                     if AInt num_examples \<noteq> v then Inl CountMismatch
                     else Inr (self(''num_examples'' \<mapsto> AInt num_examples), images, path_images))
           else Inr (self(''num_examples'' \<mapsto> AInt num_examples), images, path_images)))"

definition Dataset_init :: "(string \<Rightarrow> string list) \<Rightarrow> py_object \<Rightarrow> string \<Rightarrow> py_error + py_object" where
  "Dataset_init list_dir self path_images =
     (case make_image_dirs list_dir self path_images of
        Inl e \<Rightarrow> Inl e
      | Inr (self1, images, path) \<Rightarrow>
          Inr (self1(''images'' \<mapsto> AStrs images, ''path_images'' \<mapsto> AStr path,
                     ''batch_size'' \<mapsto> AInt 16, ''seed'' \<mapsto> AInt 42)))"

definition ImgMaskDataset_discover ::
  "(string \<Rightarrow> string list) \<Rightarrow> (string \<rightharpoonup> string) \<Rightarrow> py_error + py_object" where
  "ImgMaskDataset_discover list_dir paths_training =
     (case (paths_training ''path_images'', paths_training ''path_masks'') of
        (Some path_images, Some path_masks) \<Rightarrow>
          (case Dataset_init list_dir Map.empty path_images of
             Inl e \<Rightarrow> Inl e
           | Inr self1 \<Rightarrow>
               (case make_image_dirs list_dir self1 path_masks of
                  Inl e \<Rightarrow> Inl e
                | Inr (self2, masks, path) \<Rightarrow>
                    Inr (self2(''masks'' \<mapsto> AStrs masks, ''path_masks'' \<mapsto> AStr path))))
      | _ \<Rightarrow> Inl MissingRequiredPathKey)"

definition read_labels_from_excel ::
  "(string \<Rightarrow> (string \<times> string) list) \<Rightarrow> py_object \<Rightarrow> string \<Rightarrow> py_error + py_object" where
  "read_labels_from_excel read_csv self path_labels =
     (let data_labels = map (\<lambda>(id, label). (id @ ''.tif'', label)) (read_csv path_labels);
          self1 = self(''data_labels'' \<mapsto> ARows data_labels)
      in case self1 ''images'' of
           Some (AStrs images) \<Rightarrow>
             if length data_labels \<noteq> length images then Inl CountMismatch else Inr self1
         | _ \<Rightarrow> Inl AttributeError)"

definition ImgLabelDataset_discover ::
  "(string \<Rightarrow> string list) \<Rightarrow> (string \<Rightarrow> (string \<times> string) list) \<Rightarrow> (string \<rightharpoonup> string)
     \<Rightarrow> py_error + py_object" where
  "ImgLabelDataset_discover list_dir read_csv paths_training =
     (case (paths_training ''path_images'', paths_training ''path_labels'') of
        (Some path_images, Some path_labels) \<Rightarrow>
          (case Dataset_init list_dir Map.empty path_images of
             Inl e \<Rightarrow> Inl e
           | Inr self1 \<Rightarrow> read_labels_from_excel read_csv self1 path_labels)
      | _ \<Rightarrow> Inl MissingRequiredPathKey)"

subsection \<open>Batch size and step counts\<close>

text \<open>
  The memory probe is the environment of \<^verbatim>\<open>__set_batch_size\<close>: whether an
  accelerator is visible, the bytes \<^verbatim>\<open>psutil\<close> reports as available, and the
  sizes of the image files. With an accelerator the function returns a variable
  it never assigned.
\<close>

definition get_mean_file_size :: "int list \<Rightarrow> py_error + rat" where
  "get_mean_file_size file_sizes =
     (if file_sizes = [] then Inl ZeroDivisionError
      else Inr (of_int (sum_list file_sizes) / of_nat (length file_sizes)))"

definition get_batch_max_batch_size_for_system_memory ::
  "bool \<Rightarrow> rat \<Rightarrow> int list \<Rightarrow> rat \<Rightarrow> py_error + rat" where
  "get_batch_max_batch_size_for_system_memory gpus available file_sizes memory_factor =
     (if gpus then Inl UnboundLocalError
      else (let available_memory = max (memory_factor * available) 50000000000
            in case get_mean_file_size file_sizes of
                 Inl e \<Rightarrow> Inl e
               | Inr avg_file_size \<Rightarrow>
                   if avg_file_size = 0 then Inl ZeroDivisionError
                   else Inr (available_memory / avg_file_size)))"

definition calc_nearest_power_of_two :: "int \<Rightarrow> rat \<Rightarrow> py_error + int" where
  "calc_nearest_power_of_two batch_size limit =
     (if batch_size \<le> 0 then Inl MathDomainError
      else (let power_of_two = (2::int) ^ ceil_log2 (nat batch_size);
                power_of_two = (if limit < of_int power_of_two
                                then 2 ^ floor_log2 (nat batch_size) else power_of_two)
            in if limit < of_int power_of_two then Inl BatchSizeExceedsLimit
               else Inr power_of_two))"

definition Dataset_set_batch_size ::
  "int \<Rightarrow> bool \<Rightarrow> rat \<Rightarrow> int list \<Rightarrow> int \<Rightarrow> py_error + int" where
  "Dataset_set_batch_size num_examples gpus available file_sizes batch_size =
     (case get_batch_max_batch_size_for_system_memory gpus available file_sizes (8 / 10) of
        Inl e \<Rightarrow> Inl e
      | Inr max_batch_size \<Rightarrow>
          (case calc_nearest_power_of_two batch_size max_batch_size of
             Inl e \<Rightarrow> Inl e
           | Inr nearest_power_of_two \<Rightarrow> Inr (min nearest_power_of_two num_examples)))"

definition calc_train_steps :: "nat \<Rightarrow> nat \<Rightarrow> int \<Rightarrow> py_error + (int \<times> int)" where
  "calc_train_steps len_train len_valid batch_size =
     (if batch_size = 0 then Inl ZeroDivisionError
      else (let train_steps = py_round (of_nat len_train / of_int batch_size);
                valid_steps = py_round (of_nat len_valid / of_int batch_size);
                train_steps = (if int len_train mod batch_size \<noteq> 0
                               then train_steps + 1 else train_steps);
                valid_steps = (if int len_valid mod batch_size \<noteq> 0
                               then valid_steps + 1 else valid_steps)
            in Inr (train_steps, valid_steps)))"

subsection \<open>Splitting\<close>

text \<open>
  \<^verbatim>\<open>train_test_split\<close> and \<^verbatim>\<open>shuffle\<close> belong to the learning library. With an
  integer \<^verbatim>\<open>test_size\<close> the first draws a permutation of the indices from a
  generator seeded with \<^verbatim>\<open>random_state\<close>, gives the first \<^verbatim>\<open>test_size\<close>
  indices to the test part and the rest to the train part, and rejects a
  \<^verbatim>\<open>test_size\<close> that is not positive or not below the number of samples. The
  generator is the parameter \<open>rng\<close>: the permutation it draws for a seed and
  a length. \<^verbatim>\<open>shuffle\<close> is called without a seed, so the permutation it applies
  to both lists is a parameter of each call; it rejects lists of different
  lengths.
\<close>

definition train_test_split ::
  "(nat \<Rightarrow> nat \<Rightarrow> nat list) \<Rightarrow> 'a list \<Rightarrow> int \<Rightarrow> nat \<Rightarrow> py_error + ('a list \<times> 'a list)" where
  "train_test_split rng arrays test_size random_state =
     (let n_samples = length arrays in
      if int n_samples \<le> test_size \<or> test_size \<le> 0 then Inl SplitSizeError
      else (let permutation = rng random_state n_samples;
                n_test = nat test_size
            in Inr (map (\<lambda>i. arrays ! i) (drop n_test permutation),
                    map (\<lambda>i. arrays ! i) (take n_test permutation))))"

definition shuffle :: "nat list \<Rightarrow> 'a list \<Rightarrow> 'b list \<Rightarrow> py_error + ('a list \<times> 'b list)" where
  "shuffle indices x y =
     (if length x \<noteq> length y then Inl InconsistentLength
      else Inr (map (\<lambda>i. x ! i) indices, map (\<lambda>i. y ! i) indices))"

definition load_data ::
  "(nat \<Rightarrow> nat \<Rightarrow> nat list) \<Rightarrow> 'a list \<Rightarrow> 'b list \<Rightarrow> rat \<Rightarrow> nat
     \<Rightarrow> py_error + (('a list \<times> 'b list) \<times> ('a list \<times> 'b list) \<times> ('a list \<times> 'b list))" where
  "load_data rng images masks split seed =
     (let size = py_int (of_nat (length images) * split) in
      case train_test_split rng images size seed of
        Inl e \<Rightarrow> Inl e
      | Inr (train_x, valid_x) \<Rightarrow>
      case train_test_split rng masks size seed of
        Inl e \<Rightarrow> Inl e
      | Inr (train_y, valid_y) \<Rightarrow>
      case train_test_split rng train_x size seed of
        Inl e \<Rightarrow> Inl e
      | Inr (train_x, test_x) \<Rightarrow>
      case train_test_split rng train_y size seed of
        Inl e \<Rightarrow> Inl e
      | Inr (train_y, test_y) \<Rightarrow>
          Inr ((train_x, train_y), (valid_x, valid_y), (test_x, test_y)))"

definition prep_data_img_labels ::
  "(nat \<Rightarrow> nat \<Rightarrow> nat list) \<Rightarrow> nat list \<Rightarrow> 'a list \<Rightarrow> 'b list \<Rightarrow> nat
     \<Rightarrow> py_error + (('a list \<times> 'b list) \<times> ('a list \<times> 'b list) \<times> ('a list \<times> 'b list))" where
  "prep_data_img_labels rng indices images masks seed =
     (case load_data rng images masks (1 / 5) seed of
        Inl e \<Rightarrow> Inl e
      | Inr ((train_x, train_y), valid, test) \<Rightarrow>
          (case shuffle indices train_x train_y of
             Inl e \<Rightarrow> Inl e
           | Inr (train_x, train_y) \<Rightarrow> Inr ((train_x, train_y), valid, test)))"

text \<open>
  For comparison only, the specification's "power of two" as a test that can be
  evaluated; that it says what it should is the lemma \<open>is_power_of_two_iff\<close>.
\<close>

definition is_power_of_two :: "int \<Rightarrow> bool" where
  "is_power_of_two n = (0 < n \<and> 2 ^ floor_log2 (nat n) = n)"

text \<open>A generator used for concrete runs: it rotates the indices by the seed.\<close>

definition example_rng :: "nat \<Rightarrow> nat \<Rightarrow> nat list" where
  "example_rng seed n = rotate seed [0 ..< n]"

text \<open>
  A concrete data directory used below: ten image files and nine mask files,
  and a label table of nine rows.
\<close>

definition example_list_dir :: "string \<Rightarrow> string list" where
  "example_list_dir path =
     (if path = ''data/images'' then map (\<lambda>i. ''img'' @ str_nat i @ ''.tif'') [0 ..< 10]
      else if path = ''data/masks'' then map (\<lambda>i. ''img'' @ str_nat i @ ''.tif'') [0 ..< 9]
      else [])"

definition example_read_csv :: "string \<Rightarrow> (string \<times> string) list" where
  "example_read_csv path = map (\<lambda>i. (''img'' @ str_nat i, ''1'')) [0 ..< 9]"

section \<open>Properties of the name resolver\<close>

lemma max_key_len_mem: "max_key_len b xs \<in> set (b # xs)"
  by (induction xs arbitrary: b) auto

lemma max_key_len_start: "length b \<le> length (max_key_len b xs)"
proof (induction xs arbitrary: b)
  case Nil
  show ?case by simp
next
  case (Cons x xs)
  have "length b \<le> length (if length b < length x then x else b)" by simp
  also have "\<dots> \<le> length (max_key_len (if length b < length x then x else b) xs)"
    by (rule Cons.IH)
  finally show ?case by simp
qed

lemma max_key_len_ge: "y \<in> set (b # xs) \<Longrightarrow> length y \<le> length (max_key_len b xs)"
proof (induction xs arbitrary: b)
  case Nil
  then show ?case by simp
next
  case (Cons x xs)
  let ?b = "if length b < length x then x else b"
  have start: "length ?b \<le> length (max_key_len ?b xs)" by (rule max_key_len_start)
  from Cons.prems consider "y = b" | "y = x" | "y \<in> set xs" by auto
  then show ?case
  proof cases
    case 1
    with start show ?thesis by (simp split: if_splits)
  next
    case 2
    with start show ?thesis by (simp split: if_splits)
  next
    case 3
    then have "y \<in> set (?b # xs)" by simp
    then have "length y \<le> length (max_key_len ?b xs)" by (rule Cons.IH)
    then show ?thesis by simp
  qed
qed

lemma base_is_set:
  assumes "filter (\<lambda>k. startswith (model_name self) k) (map fst valid_model_names_all) = k # ks"
  shows "model_name_base (snd (get_complexity_from_model_name self)) = Some (max_key_len k ks)"
    and "fst (get_complexity_from_model_name self) \<noteq> Some UnknownBaseModel"
  using assms
  by (auto simp: get_complexity_from_model_name_def Let_def py_split_def split: sum.splits)

text \<open>
  Claim C6. When some catalog key is a prefix of the lowercased name, the
  resolver does not fail with the unknown-base-model error and the base name it
  stores is a catalog key, a prefix of the lowercased name, and at least as long
  as every catalog key that is a prefix of it. When no catalog key is a prefix,
  the resolver fails with the unknown-base-model error and assigns nothing.
\<close>

theorem resolve_longest_prefix:
  "((\<exists>k \<in> set (map fst valid_model_names_all). prefix k (lower name)) \<longrightarrow>
      fst (resolve name) \<noteq> Some UnknownBaseModel \<and>
      (\<exists>b. model_name_base (snd (resolve name)) = Some b
           \<and> b \<in> set (map fst valid_model_names_all)
           \<and> prefix b (lower name)
           \<and> (\<forall>k \<in> set (map fst valid_model_names_all).
                 prefix k (lower name) \<longrightarrow> length k \<le> length b)))
   \<and> (\<not> (\<exists>k \<in> set (map fst valid_model_names_all). prefix k (lower name)) \<longrightarrow>
        resolve name = (Some UnknownBaseModel, init_resolver name))"
proof (intro conjI impI)
  let ?keys = "map fst valid_model_names_all"
  let ?self = "init_resolver name"
  let ?ms = "filter (\<lambda>k. startswith (model_name ?self) k) ?keys"
  have mn: "model_name ?self = lower name" by (simp add: init_resolver_def)
  {
    assume ex: "\<exists>k \<in> set ?keys. prefix k (lower name)"
    then have "?ms \<noteq> []" by (auto simp: filter_empty_conv startswith_def mn)
    then obtain k ks where ms: "?ms = k # ks" by (cases ?ms) auto
    let ?b = "max_key_len k ks"
    have "?b \<in> set ?ms" using max_key_len_mem [of k ks] ms by simp
    then have bk: "?b \<in> set ?keys" and bp: "prefix ?b (lower name)"
      by (auto simp: startswith_def mn)
    have bmax: "\<forall>k' \<in> set ?keys. prefix k' (lower name) \<longrightarrow> length k' \<le> length ?b"
    proof (intro ballI impI)
      fix k' assume "k' \<in> set ?keys" "prefix k' (lower name)"
      then have "k' \<in> set ?ms" by (simp add: startswith_def mn)
      then have "k' \<in> set (k # ks)" by (simp only: ms)
      then show "length k' \<le> length ?b" by (rule max_key_len_ge)
    qed
    show "fst (resolve name) \<noteq> Some UnknownBaseModel"
      unfolding resolve_def by (rule base_is_set(2) [OF ms])
    have "model_name_base (snd (resolve name)) = Some ?b"
      unfolding resolve_def by (rule base_is_set(1) [OF ms])
    with bk bp bmax
    show "\<exists>b. model_name_base (snd (resolve name)) = Some b \<and> b \<in> set ?keys
           \<and> prefix b (lower name)
           \<and> (\<forall>k \<in> set ?keys. prefix k (lower name) \<longrightarrow> length k \<le> length b)"
      by blast
  }
  {
    assume "\<not> (\<exists>k \<in> set ?keys. prefix k (lower name))"
    then have "?ms = []" by (auto simp: filter_empty_conv startswith_def mn)
    then show "resolve name = (Some UnknownBaseModel, init_resolver name)"
      by (simp add: resolve_def get_complexity_from_model_name_def)
  }
qed

theorem resolve_longest_prefix_witness:
  "(\<exists>k \<in> set (map fst valid_model_names_all). prefix k (lower ''ResNet_v250''))
   \<and> prefix ''resnet'' (lower ''ResNet_v250'')
   \<and> model_name_base (snd (resolve ''ResNet_v250'')) = Some ''resnet_v2''
   \<and> \<not> (\<exists>k \<in> set (map fst valid_model_names_all). prefix k (lower ''AlexNet''))
   \<and> resolve ''AlexNet'' = (Some UnknownBaseModel, init_resolver ''AlexNet'')"
proof -
  have h1: "\<exists>k \<in> set (map fst valid_model_names_all). prefix k (lower ''ResNet_v250'')"
    by code_simp
  have h2: "\<not> (\<exists>k \<in> set (map fst valid_model_names_all). prefix k (lower ''AlexNet''))"
    by code_simp
  have p: "prefix ''resnet'' (lower ''ResNet_v250'')" by code_simp
  have v: "model_name_base (snd (resolve ''ResNet_v250'')) = Some ''resnet_v2''" by code_simp
  from resolve_longest_prefix [of "''AlexNet''"] h2
  have "resolve ''AlexNet'' = (Some UnknownBaseModel, init_resolver ''AlexNet'')" by blast
  moreover from resolve_longest_prefix [of "''ResNet_v250''"] h1
  have "fst (resolve ''ResNet_v250'') \<noteq> Some UnknownBaseModel" by blast
  ultimately show ?thesis using h1 h2 p v by blast
qed

text \<open>
  Claim C7. The source takes the complexity token as the last piece of the name
  split at the base key, which is the text after the last occurrence of the key
  and not the text after the key at the front. For the name
  \<^verbatim>\<open>mobilenetmobilenet\<close> the resolver succeeds with base \<^verbatim>\<open>mobilenet\<close> and an
  empty complexity token, where stripping the key from the front leaves
  \<^verbatim>\<open>mobilenet\<close>.
\<close>

theorem complexity_is_text_after_last_key:
  "resolve ''mobilenetmobilenet'' =
     (None, \<lparr>model_name = ''mobilenetmobilenet'', model_name_base = Some ''mobilenet'',
             model_complexity = Some ''''\<rparr>)
   \<and> spec_complexity_token ''mobilenetmobilenet'' ''mobilenet'' = ''mobilenet''"
  by code_simp

section \<open>Properties of the local-minima escape\<close>

lemma pick_loop_zero:
  "pick_loop backups (0, b) =
     (0, case filter (\<lambda>r. 0 < snd (snd (snd r))) backups of
           [] \<Rightarrow> b | x # xs \<Rightarrow> fst (last (x # xs)))"
proof (induction backups arbitrary: b)
  case Nil
  show ?case by simp
next
  case (Cons r rest)
  obtain model mf cf acc where r: "r = (model, (mf, cf, acc))" by (cases r) auto
  show ?case
    by (cases "filter (\<lambda>r. 0 < snd (snd (snd r))) rest") (simp_all add: r Cons.IH)
qed

text \<open>
  Claim C1. The selection loop never updates \<^verbatim>\<open>best_acc\<close>, so it keeps the
  last record with a positive coefficient and not the one with the highest.
  With two attempts and coefficients 0.5, 0.9 and 0.7 the three records are
  collected, the loop selects \<^verbatim>\<open>jump_iter2\<close> (0.7) although
  \<^verbatim>\<open>jump_iter1\<close> has 0.9, and the canonical checkpoint ends with the content
  of the second backup and not with that of the first.
\<close>

theorem pick_best_model_keeps_last_positive:
  "map_sum id snd
     (collect_backups example_run ''out/m.h5'' ''out/h.csv'' [1 ..< 3] example_files
        [(''jump_iter0'', (''out/m.h5'', ''out/h.csv'', 1 / 2))])
     = Inr [(''jump_iter0'', (''out/m.h5'', ''out/h.csv'', 1 / 2)),
            (''jump_iter1'', (''out/m_backup1.h5'', ''out/h_backup1.csv'', 9 / 10)),
            (''jump_iter2'', (''out/m_backup2.h5'', ''out/h_backup2.csv'', 7 / 10))]
   \<and> snd (pick_loop
            [(''jump_iter0'', (''out/m.h5'', ''out/h.csv'', 1 / 2)),
             (''jump_iter1'', (''out/m_backup1.h5'', ''out/h_backup1.csv'', 9 / 10)),
             (''jump_iter2'', (''out/m_backup2.h5'', ''out/h_backup2.csv'', 7 / 10))]
            (0, '''')) = ''jump_iter2''
   \<and> map_sum id (\<lambda>files. (files ''out/m.h5'', files ''out/m_backup1.h5'', files ''out/m_backup2.h5''))
       (try_bypass_local_minimum example_run ''out/m.h5'' ''out/h.csv'' (1 / 2) 2 example_files)
     = Inr (Some ''w1'', Some ''w0'', Some ''w1'')"
  by code_simp

section \<open>Properties of the checkpoint lifecycle\<close>

lemma paths_distinct: "trained_model_path dir name \<noteq> history_path dir name"
  by (simp add: trained_model_path_def history_path_def)

text \<open>
  Claim C9. Constructed in resume mode, the orchestrator ends fresh exactly when
  the checkpoint file and the history file are not both present. When both are
  present the file system is left as it is and the checkpoint is the file whose
  weights are loaded. Otherwise no weights are loaded, no error is raised (the
  function is total and has no error result), neither file exists afterwards,
  and every other path is untouched.
\<close>

theorem resume_fresh_iff_file_missing:
  "train_fresh (make_callbacks dir name False files) =
     (\<not> (exists_path files (trained_model_path dir name)
          \<and> exists_path files (history_path dir name)))
   \<and> (if exists_path files (trained_model_path dir name)
          \<and> exists_path files (history_path dir name)
       then loaded_weights (make_callbacks dir name False files)
              = Some (trained_model_path dir name)
            \<and> files_after (make_callbacks dir name False files) = files
       else loaded_weights (make_callbacks dir name False files) = None
            \<and> \<not> exists_path (files_after (make_callbacks dir name False files))
                  (trained_model_path dir name)
            \<and> \<not> exists_path (files_after (make_callbacks dir name False files))
                  (history_path dir name)
            \<and> (\<forall>q. q \<noteq> trained_model_path dir name \<and> q \<noteq> history_path dir name
                 \<longrightarrow> files_after (make_callbacks dir name False files) q = files q))"
  using paths_distinct [of dir name]
  by (auto simp: make_callbacks_def Let_def exists_path_def delete_def)

theorem resume_fresh_iff_file_missing_witness:
  "train_fresh (make_callbacks ''out'' ''unet'' False Map.empty)
   \<and> loaded_weights (make_callbacks ''out'' ''unet'' False Map.empty) = None
   \<and> \<not> train_fresh (make_callbacks ''out'' ''unet'' False
          [''out/trained_model_unet.h5'' \<mapsto> ''w'', ''out/training_history_unet.csv'' \<mapsto> ''h''])
   \<and> loaded_weights (make_callbacks ''out'' ''unet'' False
          [''out/trained_model_unet.h5'' \<mapsto> ''w'', ''out/training_history_unet.csv'' \<mapsto> ''h''])
       = Some ''out/trained_model_unet.h5''
   \<and> train_fresh (make_callbacks ''out'' ''unet'' False [''out/trained_model_unet.h5'' \<mapsto> ''w''])
   \<and> files_after (make_callbacks ''out'' ''unet'' False [''out/trained_model_unet.h5'' \<mapsto> ''w''])
        ''out/trained_model_unet.h5'' = None"
  using resume_fresh_iff_file_missing [of "''out''" "''unet''" Map.empty]
    resume_fresh_iff_file_missing [of "''out''" "''unet''"
      "[''out/trained_model_unet.h5'' \<mapsto> ''w'', ''out/training_history_unet.csv'' \<mapsto> ''h'']"]
    resume_fresh_iff_file_missing [of "''out''" "''unet''" "[''out/trained_model_unet.h5'' \<mapsto> ''w'']"]
  by (simp add: exists_path_def trained_model_path_def history_path_def)

section \<open>Debug mode: properties\<close>

lemma debug_mode_on_tf_dataset:
  "init_debug True \<lparr>train_dataset = TfDataset batches, valid_dataset = valid, num_epochs = n\<rparr>
     = Inr \<lparr>train_dataset = TfDataset (take 16 batches),
            valid_dataset = TfDataset (take 16 (take 16 batches)),
            num_epochs = 1\<rparr>
   \<and> length (take 16 batches) = min 16 (length batches)
   \<and> take 16 (take 16 batches) = take 16 batches"
  by (simp add: init_debug_def set_run_debug_def set_default_optimization_params_def
      py_take_def Let_def min_def)

lemma debug_mode_on_iterator:
  "init_debug True \<lparr>train_dataset = DataFrameIterator batches, valid_dataset = valid,
                     num_epochs = n\<rparr>
     = Inl AttributeError"
  by (simp add: init_debug_def set_run_debug_def set_default_optimization_params_def
      py_take_def Let_def)

text \<open>
  Claim C10. Debug mode calls \<^verbatim>\<open>take(16)\<close> on whatever the dataset object
  holds. The label dataset holds the iterator of \<^verbatim>\<open>flow_from_dataframe\<close>, so
  constructing the orchestrator in debug mode on it raises \<^verbatim>\<open>AttributeError\<close>
  at the first call: nothing is truncated and the epoch budget is not set to
  one. On the mask-paired dataset, here with 20 training batches, the training
  sequence becomes its first 16 batches, the validation sequence becomes the
  first 16 batches of that truncated sequence and the epoch budget becomes one.
\<close>

theorem debug_mode_fails_on_label_dataset:
  "init_debug True
     \<lparr>train_dataset = DataFrameIterator [0 ..< 20], valid_dataset = DataFrameIterator [20 ..< 25],
      num_epochs = 0\<rparr>
     = Inl AttributeError
   \<and> init_debug True
       \<lparr>train_dataset = TfDataset [0 ..< 20], valid_dataset = TfDataset [20 ..< 25],
        num_epochs = 0\<rparr>
     = Inr \<lparr>train_dataset = TfDataset [0 ..< 16], valid_dataset = TfDataset [0 ..< 16],
            num_epochs = 1\<rparr>"
  by code_simp

section \<open>Properties of the dataset manager\<close>

subsection \<open>Step counts\<close>

text \<open>
  Claim C2. The step count is the rounded quotient plus one when the length is
  not a multiple of the batch size, not the ceiling of the quotient. A
  sequence of length 7 with batch size 8 gets 2 steps where the ceiling is 1;
  lengths 76 and 19 with batch size 8 get 11 and 3 steps where the ceilings
  are 10 and 3.
\<close>

theorem calc_train_steps_rounds_then_adds_one:
  "calc_train_steps 7 7 8 = Inr (2, 2) \<and> \<lceil>(7::rat) / 8\<rceil> = 1
   \<and> calc_train_steps 76 19 8 = Inr (11, 3) \<and> \<lceil>(76::rat) / 8\<rceil> = 10
   \<and> \<lceil>(19::rat) / 8\<rceil> = 3"
  by code_simp

subsection \<open>Batch size\<close>

lemma floor_log2_power: "floor_log2 (2 ^ k) = k"
proof (induction k)
  case 0
  show ?case by (simp add: floor_log2.simps)
next
  case (Suc k)
  have "(2::nat) ^ Suc k div 2 = 2 ^ k" by simp
  moreover have "\<not> (2::nat) ^ Suc k < 2" by simp
  ultimately show ?case using Suc.IH by (subst floor_log2.simps) simp
qed

lemma is_power_of_two_iff: "is_power_of_two n \<longleftrightarrow> (\<exists>k. n = 2 ^ k)"
proof
  assume "is_power_of_two n"
  then have "n = 2 ^ floor_log2 (nat n)" by (simp add: is_power_of_two_def)
  then show "\<exists>k. n = 2 ^ k" ..
next
  assume "\<exists>k. n = 2 ^ k"
  then obtain k where n: "n = 2 ^ k" ..
  have "nat ((2::int) ^ k) = 2 ^ k" by (simp add: nat_power_eq)
  then have "floor_log2 (nat ((2::int) ^ k)) = k" by (simp only: floor_log2_power)
  then show "is_power_of_two n" by (simp add: is_power_of_two_def n)
qed

lemma calc_nearest_power_of_two_result:
  assumes "calc_nearest_power_of_two batch_size limit = Inr p"
  shows "is_power_of_two p \<and> of_int p \<le> limit"
proof -
  from assms have "(p = 2 ^ ceil_log2 (nat batch_size) \<or> p = 2 ^ floor_log2 (nat batch_size))
      \<and> of_int p \<le> limit"
    by (auto simp: calc_nearest_power_of_two_def Let_def split: if_splits)
  then show ?thesis by (auto simp: is_power_of_two_iff)
qed

lemma set_batch_size_result:
  assumes "Dataset_set_batch_size num_examples gpus available file_sizes batch_size = Inr b"
  shows "\<exists>max_batch_size p.
           get_batch_max_batch_size_for_system_memory gpus available file_sizes (8 / 10)
             = Inr max_batch_size
           \<and> calc_nearest_power_of_two batch_size max_batch_size = Inr p
           \<and> b = min p num_examples"
  using assms by (auto simp: Dataset_set_batch_size_def split: sum.splits)

lemma set_batch_size_returns_or_exceeds:
  assumes "1 \<le> batch_size" and "\<not> gpus" and "file_sizes \<noteq> []" and "0 < sum_list file_sizes"
  shows "Dataset_set_batch_size num_examples gpus available file_sizes batch_size
           = Inl BatchSizeExceedsLimit
         \<or> (\<exists>b. Dataset_set_batch_size num_examples gpus available file_sizes batch_size = Inr b)"
  using assms
  by (auto simp: Dataset_set_batch_size_def get_batch_max_batch_size_for_system_memory_def
      get_mean_file_size_def calc_nearest_power_of_two_def Let_def)

text \<open>
  Claim C3, as amended. Whenever \<^verbatim>\<open>__set_batch_size\<close> stores a batch size, the
  stored value is at most the number of examples and at most the
  memory-derived maximum, and it is a power of two or equal to the number of
  examples.
\<close>

theorem stored_batch_size_bounds:
  assumes "Dataset_set_batch_size num_examples gpus available file_sizes batch_size = Inr b"
  shows "b \<le> num_examples
         \<and> (\<exists>max_batch_size.
               get_batch_max_batch_size_for_system_memory gpus available file_sizes (8 / 10)
                 = Inr max_batch_size
               \<and> of_int b \<le> max_batch_size)
         \<and> ((\<exists>k. b = 2 ^ k) \<or> b = num_examples)"
proof -
  from set_batch_size_result [OF assms] obtain max_batch_size p where
    m: "get_batch_max_batch_size_for_system_memory gpus available file_sizes (8 / 10)
          = Inr max_batch_size"
    and p: "calc_nearest_power_of_two batch_size max_batch_size = Inr p"
    and b: "b = min p num_examples"
    by blast
  from calc_nearest_power_of_two_result [OF p]
  have pow: "\<exists>k. p = 2 ^ k" and le: "of_int p \<le> max_batch_size"
    by (simp_all add: is_power_of_two_iff)
  have "b \<le> p" by (simp add: b)
  then have "(of_int b :: rat) \<le> of_int p" by simp
  with le have "of_int b \<le> max_batch_size" by simp
  moreover have "b \<le> num_examples" by (simp add: b)
  moreover have "(\<exists>k. b = 2 ^ k) \<or> b = num_examples"
    using pow by (auto simp: b min_def)
  ultimately show ?thesis using m by blast
qed

theorem stored_batch_size_bounds_witness:
  "Dataset_set_batch_size 95 False 0 [1000000] 8 = Inr 8
   \<and> (8::int) \<le> 95
   \<and> (\<exists>max_batch_size.
         get_batch_max_batch_size_for_system_memory False 0 [1000000] (8 / 10) = Inr max_batch_size
         \<and> of_int 8 \<le> max_batch_size)
   \<and> ((\<exists>k. (8::int) = 2 ^ k) \<or> (8::int) = 95)"
proof -
  have h: "Dataset_set_batch_size 95 False 0 [1000000] 8 = Inr 8" by code_simp
  from stored_batch_size_bounds [OF h] h show ?thesis by blast
qed

theorem stored_batch_size_not_power_of_two:
  "Dataset_set_batch_size 95 False 0 [1000000] 100 = Inr 95 \<and> \<not> is_power_of_two 95"
  by code_simp

subsection \<open>Count check at discovery\<close>

lemma make_image_dirs_no_mismatch:
  "\<not> hasattr self ''num_images'' \<Longrightarrow> make_image_dirs list_dir self path \<noteq> Inl CountMismatch"
  by (simp add: make_image_dirs_def get_image_list_def Let_def)

lemma make_image_dirs_keeps_num_images:
  "make_image_dirs list_dir self path = Inr (self1, images, p)
     \<Longrightarrow> hasattr self1 ''num_images'' = hasattr self ''num_images''"
  by (auto simp: make_image_dirs_def get_image_list_def Let_def hasattr_def
      split: if_splits option.splits)

lemma mask_discovery_never_count_mismatch:
  "ImgMaskDataset_discover list_dir paths_training \<noteq> Inl CountMismatch"
proof -
  have init: "\<not> hasattr self1 ''num_images''"
    if "Dataset_init list_dir Map.empty path_images = Inr self1" for self1 path_images
  proof -
    from that obtain s images p where
      m: "make_image_dirs list_dir Map.empty path_images = Inr (s, images, p)"
      and s: "self1 = s(''images'' \<mapsto> AStrs images, ''path_images'' \<mapsto> AStr p,
                        ''batch_size'' \<mapsto> AInt 16, ''seed'' \<mapsto> AInt 42)"
      by (auto simp: Dataset_init_def split: sum.splits)
    from make_image_dirs_keeps_num_images [OF m] have "\<not> hasattr s ''num_images''"
      by (simp add: hasattr_def)
    then show ?thesis by (simp add: s hasattr_def)
  qed
  have first: "Dataset_init list_dir Map.empty path_images \<noteq> Inl CountMismatch" for path_images
    using make_image_dirs_no_mismatch [of Map.empty list_dir path_images]
    by (auto simp: Dataset_init_def hasattr_def split: sum.splits)
  show ?thesis
    using first init make_image_dirs_no_mismatch
    by (auto simp: ImgMaskDataset_discover_def split: option.splits sum.splits)
qed

lemma label_discovery_count_check:
  assumes "paths_training ''path_images'' = Some path_images"
    and "paths_training ''path_labels'' = Some path_labels"
    and "list_dir path_images \<noteq> []"
  shows "(ImgLabelDataset_discover list_dir read_csv paths_training = Inl CountMismatch)
           = (length (read_csv path_labels) \<noteq> length (list_dir path_images))"
    and "length (read_csv path_labels) = length (list_dir path_images)
           \<Longrightarrow> \<exists>self. ImgLabelDataset_discover list_dir read_csv paths_training = Inr self"
  using assms
  by (auto simp: ImgLabelDataset_discover_def Dataset_init_def make_image_dirs_def
      get_image_list_def read_labels_from_excel_def hasattr_def Let_def)

text \<open>
  Claim C4. In mask-paired mode the count check asks for an attribute,
  \<^verbatim>\<open>num_images\<close>, that is never assigned, so it never fires. With ten images
  and nine masks discovery succeeds and leaves \<^verbatim>\<open>num_examples\<close> at nine; the
  construction only stops later, in the library's shuffle, on the unequal train
  lists. In label mode the same counts raise the count-mismatch error.
\<close>

theorem mask_count_mismatch_is_not_detected:
  "map_sum id (\<lambda>self. self ''num_examples'')
     (ImgMaskDataset_discover example_list_dir
        [''path_images'' \<mapsto> ''data/images'', ''path_masks'' \<mapsto> ''data/masks''])
     = Inr (Some (AInt 9))
   \<and> prep_data_img_labels example_rng [0 ..< 6]
       (example_list_dir ''data/images'') (example_list_dir ''data/masks'') 42
     = Inl InconsistentLength
   \<and> map_sum id (\<lambda>self. self ''num_examples'')
       (ImgLabelDataset_discover example_list_dir example_read_csv
          [''path_images'' \<mapsto> ''data/images'', ''path_labels'' \<mapsto> ''data/labels.csv''])
     = Inl CountMismatch"
  by code_simp

subsection \<open>Sizes of the three parts\<close>

lemma py_int_fifth: "py_int (of_nat n * (1 / 5)) = int (n div 5)"
proof -
  have "\<lfloor>(of_nat n :: rat) / of_nat 5\<rfloor> = int (n div 5)"
    by (rule floor_divide_of_nat_eq)
  then show ?thesis by (simp add: py_int_def)
qed

lemma py_int_fifth_div: "py_int (of_nat n / 5) = int (n div 5)"
  using py_int_fifth [of n] by simp

lemma train_test_split_lengths:
  assumes "length (rng random_state (length arrays)) = length arrays"
    and "train_test_split rng arrays test_size random_state = Inr (train, test)"
  shows "length test = nat test_size \<and> length train = length arrays - nat test_size"
  using assms by (auto simp: train_test_split_def Let_def split: if_splits)

lemma train_test_split_returns:
  assumes "0 < test_size" and "test_size < int (length arrays)"
  shows "\<exists>train test. train_test_split rng arrays test_size random_state = Inr (train, test)"
  using assms by (simp add: train_test_split_def Let_def)

lemma load_data_lengths:
  assumes rng: "\<forall>n. length (rng seed n) = n"
    and load: "load_data rng images masks split seed
                 = Inr ((train_x, train_y), (valid_x, valid_y), (test_x, test_y))"
  shows "length valid_x = nat (py_int (of_nat (length images) * split))"
    and "length valid_y = nat (py_int (of_nat (length images) * split))"
    and "length test_x = nat (py_int (of_nat (length images) * split))"
    and "length test_y = nat (py_int (of_nat (length images) * split))"
    and "length train_x = length images - 2 * nat (py_int (of_nat (length images) * split))"
    and "length train_y = length masks - 2 * nat (py_int (of_nat (length images) * split))"
proof -
  let ?size = "py_int (of_nat (length images) * split)"
  from load obtain tx0 ty0 where
    s1: "train_test_split rng images ?size seed = Inr (tx0, valid_x)"
    and s2: "train_test_split rng masks ?size seed = Inr (ty0, valid_y)"
    and s3: "train_test_split rng tx0 ?size seed = Inr (train_x, test_x)"
    and s4: "train_test_split rng ty0 ?size seed = Inr (train_y, test_y)"
    by (auto simp: load_data_def Let_def split: sum.splits)
  have r: "length (rng seed (length xs)) = length xs" for xs :: "'c list"
    using rng by simp
  from train_test_split_lengths [OF r s1]
  have a: "length valid_x = nat ?size" "length tx0 = length images - nat ?size" by simp_all
  from train_test_split_lengths [OF r s2]
  have b: "length valid_y = nat ?size" "length ty0 = length masks - nat ?size" by simp_all
  from train_test_split_lengths [OF r s3]
  have c: "length test_x = nat ?size" "length train_x = length tx0 - nat ?size" by simp_all
  from train_test_split_lengths [OF r s4]
  have d: "length test_y = nat ?size" "length train_y = length ty0 - nat ?size" by simp_all
  show "length valid_x = nat ?size" "length valid_y = nat ?size"
    "length test_x = nat ?size" "length test_y = nat ?size"
    by (rule a b c d)+
  show "length train_x = length images - 2 * nat ?size" using a c by (simp add: mult_2)
  show "length train_y = length masks - 2 * nat ?size" using b d by (simp add: mult_2)
qed

lemma load_data_returns:
  assumes rng: "\<forall>n. length (rng seed n) = n"
    and n: "5 \<le> length images" and eq: "length masks = length images"
  shows "\<exists>r. load_data rng images masks (1 / 5) seed = Inr r"
proof -
  let ?size = "py_int (of_nat (length images) * (1 / 5))"
  have size: "?size = int (length images div 5)" by (rule py_int_fifth)
  have pos: "0 < ?size" and lt: "?size < int (length images)"
    using n by (simp_all add: py_int_fifth_div)
  from train_test_split_returns [OF pos lt] obtain tx0 vx where
    s1: "train_test_split rng images ?size seed = Inr (tx0, vx)" by blast
  from lt eq have lt': "?size < int (length masks)" by simp
  from train_test_split_returns [OF pos lt'] obtain ty0 vy where
    s2: "train_test_split rng masks ?size seed = Inr (ty0, vy)" by blast
  have r: "length (rng seed (length xs)) = length xs" for xs :: "'c list"
    using rng by simp
  from train_test_split_lengths [OF r s1]
  have l1: "length tx0 = length images - length images div 5" by (simp add: py_int_fifth_div)
  from train_test_split_lengths [OF r s2]
  have l2: "length ty0 = length images - length images div 5"
    by (simp add: py_int_fifth_div eq)
  have "?size < int (length tx0)" using n by (simp add: py_int_fifth_div l1)
  from train_test_split_returns [OF pos this] obtain tx sx where
    s3: "train_test_split rng tx0 ?size seed = Inr (tx, sx)" by blast
  have "?size < int (length ty0)" using n by (simp add: py_int_fifth_div l2)
  from train_test_split_returns [OF pos this] obtain ty sy where
    s4: "train_test_split rng ty0 ?size seed = Inr (ty, sy)" by blast
  show ?thesis using s1 s2 s3 s4 by (simp add: load_data_def Let_def)
qed

text \<open>
  Claim C5, as amended. For a mask-paired sample set of at least five images,
  with as many masks and split ratio 0.2, the split returns; its validation
  part has a fifth of the images, rounded down, and its test part has that same
  number of samples, taken from what remained for training: the test count is
  0.2 of the original total, not 0.2 of the remainder.
\<close>

theorem test_part_is_a_fifth_of_the_total:
  assumes "\<forall>n. length (rng seed n) = n"
    and "5 \<le> length images" and "length masks = length images"
  shows "\<exists>train_x train_y valid_x valid_y test_x test_y.
           load_data rng images masks (1 / 5) seed
             = Inr ((train_x, train_y), (valid_x, valid_y), (test_x, test_y))
           \<and> length valid_x = length images div 5 \<and> length valid_y = length images div 5
           \<and> length test_x = length images div 5 \<and> length test_y = length images div 5
           \<and> length train_x = length images - 2 * (length images div 5)
           \<and> length train_y = length images - 2 * (length images div 5)"
proof -
  from load_data_returns [where rng = rng and seed = seed, OF assms] obtain train_x train_y valid_x valid_y test_x test_y where
    load: "load_data rng images masks (1 / 5) seed
             = Inr ((train_x, train_y), (valid_x, valid_y), (test_x, test_y))"
    by (metis surj_pair)
  from load_data_lengths [where rng = rng and seed = seed, OF assms(1) load]
  show ?thesis using load by (simp add: py_int_fifth_div assms(3))
qed

lemma example_rng_length: "\<forall>n. length (example_rng seed n) = n"
  by (simp add: example_rng_def)

theorem test_part_is_a_fifth_of_the_total_witness:
  "(\<forall>n. length (example_rng 42 n) = n)
   \<and> (5::nat) \<le> length [0 ..< 25] \<and> length [100 ..< 125] = length [0 ..< 25]
   \<and> (\<exists>train_x train_y valid_x valid_y test_x test_y.
         load_data example_rng [0 ..< 25] [100 ..< 125] (1 / 5) 42
           = Inr ((train_x, train_y), (valid_x, valid_y), (test_x, test_y))
         \<and> length valid_x = 5 \<and> length valid_y = 5
         \<and> length test_x = 5 \<and> length test_y = 5
         \<and> length train_x = 15 \<and> length train_y = 15)"
proof -
  have h1: "\<forall>n. length (example_rng 42 n) = n" by (rule example_rng_length)
  have h2: "5 \<le> length [0 ..< 25]" by simp
  have h3: "length [100 ..< 125] = length [0 ..< 25]" by simp
  from test_part_is_a_fifth_of_the_total [where rng = example_rng and seed = 42, OF h1 h2 h3] h1
  show ?thesis by simp
qed

theorem test_part_is_not_a_fifth_of_the_remainder:
  "load_data example_rng [0 ..< 25] [100 ..< 125] (1 / 5) 42
     = Inr (([4, 5, 6, 7, 8, 9, 10, 11, 12, 13, 14, 15, 16, 22, 23],
             [104, 105, 106, 107, 108, 109, 110, 111, 112, 113, 114, 115, 116, 122, 123]),
            ([17, 18, 19, 20, 21], [117, 118, 119, 120, 121]),
            ([24, 0, 1, 2, 3], [124, 100, 101, 102, 103]))
   \<and> length [24, 0, 1, 2, 3 :: nat] = 5
   \<and> py_int (1 / 5 * of_nat (25 - length [17, 18, 19, 20, 21 :: nat])) = 4"
  by code_simp

subsection \<open>Reproducibility of the split\<close>

lemma zip_map_map_same: "zip (map f p) (map g p) = map (\<lambda>i. (f i, g i)) p"
  by (induction p) simp_all

lemma shuffle_pairs:
  assumes "shuffle indices x y = Inr (x', y')" and "mset indices = mset [0 ..< length x]"
  shows "mset (zip x' y') = mset (zip x y)"
proof -
  from assms(1) have len: "length x = length y"
    and x': "x' = map (\<lambda>i. x ! i) indices" and y': "y' = map (\<lambda>i. y ! i) indices"
    by (auto simp: shuffle_def split: if_splits)
  have "mset (zip x' y') = image_mset (\<lambda>i. (x ! i, y ! i)) (mset indices)"
    by (simp add: x' y' zip_map_map_same)
  also have "\<dots> = mset (map (\<lambda>i. (x ! i, y ! i)) [0 ..< length x])"
    by (simp add: assms(2))
  also have "map (\<lambda>i. (x ! i, y ! i)) [0 ..< length x] = zip x y"
    by (rule nth_equalityI) (simp_all add: len)
  finally show ?thesis .
qed

text \<open>
  Claim C8. Two constructions from the same images and masks with the same
  seed, whatever permutations their unseeded shuffles draw, end with the same
  validation part, the same test part, and the same input/target pairs in the
  train part: every pair is in the same subset in both runs.
\<close>

theorem split_is_reproducible:
  assumes "prep_data_img_labels rng indices1 images masks seed = Inr ((tx1, ty1), valid1, test1)"
    and "prep_data_img_labels rng indices2 images masks seed = Inr ((tx2, ty2), valid2, test2)"
    and "mset indices1 = mset [0 ..< length indices1]"
    and "mset indices2 = mset [0 ..< length indices2]"
    and "length indices1 = length images - 2 * (length images div 5)"
    and "length indices2 = length images - 2 * (length images div 5)"
    and "\<forall>n. length (rng seed n) = n"
  shows "valid1 = valid2 \<and> test1 = test2 \<and> mset (zip tx1 ty1) = mset (zip tx2 ty2)"
proof -
  from assms(1) obtain tx ty where
    load: "load_data rng images masks (1 / 5) seed = Inr ((tx, ty), valid1, test1)"
    and sh1: "shuffle indices1 tx ty = Inr (tx1, ty1)"
    by (auto simp: prep_data_img_labels_def split: sum.splits)
  from assms(2) load have sh2: "shuffle indices2 tx ty = Inr (tx2, ty2)"
    and v: "valid2 = valid1" and t: "test2 = test1"
    by (auto simp: prep_data_img_labels_def split: sum.splits)
  obtain vx vy sx sy where vs: "valid1 = (vx, vy)" "test1 = (sx, sy)"
    by (cases valid1, cases test1) auto
  from load_data_lengths(5) [where rng = rng and seed = seed, OF assms(7) load [unfolded vs]]
  have len: "length tx = length images - 2 * (length images div 5)"
    by (simp add: py_int_fifth_div)
  from assms(3) assms(5) len have p1: "mset indices1 = mset [0 ..< length tx]" by simp
  from assms(4) assms(6) len have p2: "mset indices2 = mset [0 ..< length tx]" by simp
  from shuffle_pairs [OF sh1 p1] shuffle_pairs [OF sh2 p2]
  have "mset (zip tx1 ty1) = mset (zip tx2 ty2)" by simp
  with v t show ?thesis by simp
qed

theorem split_is_reproducible_witness:
  "prep_data_img_labels example_rng [0, 1, 2, 3, 4, 5] [0 ..< 10] [10 ..< 20] 42
     = Inr (([8, 9, 0, 1, 4, 5], [18, 19, 10, 11, 14, 15]), ([2, 3], [12, 13]), ([6, 7], [16, 17]))
   \<and> prep_data_img_labels example_rng [5, 4, 3, 2, 1, 0] [0 ..< 10] [10 ..< 20] 42
     = Inr (([5, 4, 1, 0, 9, 8], [15, 14, 11, 10, 19, 18]), ([2, 3], [12, 13]), ([6, 7], [16, 17]))
   \<and> mset (zip [8, 9, 0, 1, 4, 5] [18, 19, 10, 11, 14, 15 :: nat])
     = mset (zip [5, 4, 1, 0, 9, 8 :: nat] [15, 14, 11, 10, 19, 18])"
proof -
  have r1: "prep_data_img_labels example_rng [0, 1, 2, 3, 4, 5] [0 ..< 10] [10 ..< 20] 42
     = Inr (([8, 9, 0, 1, 4, 5], [18, 19, 10, 11, 14, 15]), ([2, 3], [12, 13]), ([6, 7], [16, 17]))"
    by code_simp
  have r2: "prep_data_img_labels example_rng [5, 4, 3, 2, 1, 0] [0 ..< 10] [10 ..< 20] 42
     = Inr (([5, 4, 1, 0, 9, 8], [15, 14, 11, 10, 19, 18]), ([2, 3], [12, 13]), ([6, 7], [16, 17]))"
    by code_simp
  have e1: "[0 ..< length [0, 1, 2, 3, 4, 5 :: nat]] = [0, 1, 2, 3, 4, 5]" by code_simp
  have e2: "[0 ..< length [5, 4, 3, 2, 1, 0 :: nat]] = [0, 1, 2, 3, 4, 5]" by code_simp
  have p1: "mset [0, 1, 2, 3, 4, 5 :: nat] = mset [0 ..< length [0, 1, 2, 3, 4, 5 :: nat]]"
    by (simp only: e1)
  have "mset [5, 4, 3, 2, 1, 0 :: nat] = mset (rev [0, 1, 2, 3, 4, 5])" by simp
  also have "\<dots> = mset [0, 1, 2, 3, 4, 5 :: nat]" by (rule mset_rev)
  finally have p2: "mset [5, 4, 3, 2, 1, 0 :: nat] = mset [0 ..< length [5, 4, 3, 2, 1, 0 :: nat]]"
    by (simp only: e2)
  have l1: "length [0, 1, 2, 3, 4, 5 :: nat] = length [0 ..< 10] - 2 * (length [0 ..< 10] div 5)"
    by simp
  have l2: "length [5, 4, 3, 2, 1, 0 :: nat] = length [0 ..< 10] - 2 * (length [0 ..< 10] div 5)"
    by simp
  from split_is_reproducible [where rng = example_rng and seed = 42,
      OF r1 r2 p1 p2 l1 l2 example_rng_length] r1 r2
  show ?thesis by simp
qed

end
